theory Spec2Isabelle
  imports Complex_Main "HOL-Library.Sublist"
begin

section \<open>The PDF compressor: a shallow embedding of \<^verbatim>\<open>pdf_compressor.py\<close>\<close>

text \<open>
  The script drives an external engine (Ghostscript) through \<^verbatim>\<open>subprocess.run\<close>, looks at
  the filesystem through \<^verbatim>\<open>os.path.exists\<close>, \<^verbatim>\<open>os.path.getsize\<close> and \<^verbatim>\<open>os.remove\<close>, and prints
  messages. The model makes these three effects explicit:
  \<^item> the filesystem is a map from paths to file sizes in bytes;
  \<^item> the engine is a parameter: a function from the argument list and the filesystem it
    is started on to what \<^verbatim>\<open>subprocess.run\<close> observes;
  \<^item> every call of \<^verbatim>\<open>subprocess.run\<close>, every successful \<^verbatim>\<open>os.remove\<close> and every \<^verbatim>\<open>print\<close> is
    appended to a trail, in program order.
  A Python \<^verbatim>\<open>str\<close> is a \<^typ>\<open>string\<close> whose characters are code points below 256.
\<close>

subsection \<open>Strings\<close>

definition lower_char :: "char \<Rightarrow> char" where
  \<comment> \<open>\<^verbatim>\<open>str.lower\<close> on one code point below 256: A-Z, and the Latin-1 capitals but the
      multiplication sign.\<close>
  "lower_char c =
     (let n = (of_char c :: nat)
      in if (65 \<le> n \<and> n \<le> 90) \<or> (192 \<le> n \<and> n \<le> 222 \<and> n \<noteq> 215)
         then char_of (n + 32) else c)"

definition str_lower :: "string \<Rightarrow> string" where
  "str_lower s = map lower_char s"

definition is_space :: "char \<Rightarrow> bool" where
  \<comment> \<open>\<^verbatim>\<open>str.isspace\<close> on one code point below 256.\<close>
  "is_space c =
     (let n = (of_char c :: nat)
      in (9 \<le> n \<and> n \<le> 13) \<or> (28 \<le> n \<and> n \<le> 32) \<or> n = 133 \<or> n = 160)"

definition strip :: "string \<Rightarrow> string" where
  \<comment> \<open>\<^verbatim>\<open>str.strip()\<close>: leading and trailing whitespace removed.\<close>
  "strip s = rev (dropWhile is_space (rev (dropWhile is_space s)))"

definition startswith :: "string \<Rightarrow> string \<Rightarrow> bool" where
  "startswith s p = prefix p s"

definition endswith :: "string \<Rightarrow> string \<Rightarrow> bool" where
  "endswith s p = prefix (rev p) (rev s)"

definition backslash :: char where
  "backslash = char_of (92 :: nat)"

subsection \<open>Filesystem, engine, effects\<close>

type_synonym path = string

type_synonym filesystem = "path \<rightharpoonup> nat"

datatype py_error = ZeroDivisionError | OSError | UnicodeDecodeError

datatype captured =
    Text string             \<comment> \<open>captured bytes that decode, and the text they decode to\<close>
  | Undecodable string      \<comment> \<open>bytes the codec refuses, and the text of its error\<close>

datatype proc_result =
    NotFound string         \<comment> \<open>launching raised \<^verbatim>\<open>FileNotFoundError\<close>; its text\<close>
  | LaunchError string      \<comment> \<open>launching raised another exception; its text\<close>
  | Completed int captured captured filesystem
      \<comment> \<open>the process ran: exit code, standard output, standard error, and the
          filesystem it left\<close>

type_synonym engine = "string list \<Rightarrow> filesystem \<Rightarrow> proc_result"

text \<open>
  One constructor for each \<^verbatim>\<open>print\<close> call of the script, with the values that the call
  formats into its text; the install hints printed on Windows are numbered.
\<close>

datatype message =
    MsgUsage | MsgExample
  | MsgVersionWarning string | MsgOptimizedFor | MsgInstallHeader
  | MsgGsNotFound | MsgPleaseInstall
  | MsgInstallStep nat
  | MsgCheckError string
  | MsgGsError string | MsgError string
  | MsgInvalidInput
  | MsgOriginalSize rat | MsgCompressing
  | MsgTrying string
  | MsgSuccess string | MsgCompressedSize rat | MsgReduction rat | MsgSavedAs path
  | MsgNextLevel
  | MsgNoReduction | MsgPossibleCauses | MsgHint nat

datatype event = Run "string list" | Remove path | Print message

record world =
  files :: filesystem
  trail :: "event list"

definition say :: "message \<Rightarrow> world \<Rightarrow> world" where
  "say m w = w\<lparr>trail := trail w @ [Print m]\<rparr>"

definition says :: "message list \<Rightarrow> world \<Rightarrow> world" where
  "says ms w = w\<lparr>trail := trail w @ map Print ms\<rparr>"

definition os_remove :: "path \<Rightarrow> world \<Rightarrow> (py_error + unit) \<times> world" where
  \<comment> \<open>\<^verbatim>\<open>os.remove\<close> raises when there is no such file.\<close>
  "os_remove p w =
     (if files w p = None then (Inl OSError, w)
      else (Inr (), w\<lparr>files := (files w)(p := None), trail := trail w @ [Remove p]\<rparr>))"

definition subprocess_run :: "engine \<Rightarrow> string list \<Rightarrow> world \<Rightarrow> proc_result \<times> world" where
  \<comment> \<open>The call is recorded; a process that ran leaves its filesystem behind.\<close>
  "subprocess_run eng cmd w =
     (let r = eng cmd (files w);
          w1 = w\<lparr>trail := trail w @ [Run cmd]\<rparr>
      in case r of
           Completed rc out err fs' \<Rightarrow> (r, w1\<lparr>files := fs'\<rparr>)
         | _ \<Rightarrow> (r, w1))"

subsection \<open>The functions of the script\<close>

definition check_pdf :: "filesystem \<Rightarrow> path \<Rightarrow> bool" where
  "check_pdf fs file_path =
     (if fs file_path = None then False
      else endswith (str_lower file_path) ''.pdf'')"

definition get_file_size :: "filesystem \<Rightarrow> path \<Rightarrow> py_error + rat" where
  \<comment> \<open>Size in MB. \<^verbatim>\<open>os.path.getsize\<close> raises on a missing file. The division by \<open>2^20\<close> is exact
      in binary floating point for every size below \<open>2^53\<close> bytes, so the quotient is kept
      as a rational.\<close>
  "get_file_size fs file_path =
     (case fs file_path of
        None \<Rightarrow> Inl OSError
      | Some n \<Rightarrow> Inr (of_nat n / (1024 * 1024)))"

definition gs_paths :: "path list" where
  "gs_paths =
     [''C:'' @ [backslash] @ ''Program Files'' @ [backslash] @ ''gs'' @ [backslash]
        @ ''gs10.04.0'' @ [backslash] @ ''bin'' @ [backslash] @ ''gswin64c.exe'',
      ''C:'' @ [backslash] @ ''Program Files'' @ [backslash] @ ''gs'' @ [backslash]
        @ ''gs10.04'' @ [backslash] @ ''bin'' @ [backslash] @ ''gswin64c.exe'']"

definition get_gs_binary :: "string \<Rightarrow> filesystem \<Rightarrow> string" where
  \<comment> \<open>The first argument is what \<^verbatim>\<open>platform.system()\<close> returns.\<close>
  "get_gs_binary system fs =
     (if str_lower system = ''windows''
      then (case filter (\<lambda>p. fs p \<noteq> None) gs_paths of
              p # _ \<Rightarrow> p
            | [] \<Rightarrow> ''gswin64c.exe'')
      else ''gs'')"

definition install_steps :: "string \<Rightarrow> message list" where
  "install_steps system =
     (if str_lower system = ''windows''
      then [MsgInstallStep 1, MsgInstallStep 2, MsgInstallStep 3] else [])"

definition check_ghostscript :: "engine \<Rightarrow> string \<Rightarrow> world \<Rightarrow> bool \<times> world" where
  \<comment> \<open>\<^verbatim>\<open>text=True\<close> decodes both captured streams strictly; a stream that does not decode
      raises inside the \<^verbatim>\<open>try\<close> and is caught by the last handler. The exit code is not
      looked at.\<close>
  "check_ghostscript eng system w =
     (let gs_binary = get_gs_binary system (files w)
      in case subprocess_run eng [gs_binary, ''--version''] w of
           (NotFound t, w1) \<Rightarrow>
             (False, says ([MsgGsNotFound, MsgPleaseInstall] @ install_steps system) w1)
         | (LaunchError t, w1) \<Rightarrow> (False, say (MsgCheckError t) w1)
         | (Completed rc (Undecodable t) err fs', w1) \<Rightarrow> (False, say (MsgCheckError t) w1)
         | (Completed rc (Text out) (Undecodable t) fs', w1) \<Rightarrow>
             (False, say (MsgCheckError t) w1)
         | (Completed rc (Text out) (Text err) fs', w1) \<Rightarrow>
             (let version = strip out
              in if \<not> startswith version ''10.04''
                 then (False,
                       says ([MsgVersionWarning version, MsgOptimizedFor, MsgInstallHeader]
                             @ install_steps system) w1)
                 else (True, w1)))"

definition quality_settings :: "string \<rightharpoonup> string" where
  "quality_settings =
     map_of [(''printer'', ''/printer''), (''ebook'', ''/ebook''), (''screen'', ''/screen'')]"

definition dict_get :: "('k \<rightharpoonup> 'v) \<Rightarrow> 'k \<Rightarrow> 'v \<Rightarrow> 'v" where
  \<comment> \<open>\<^verbatim>\<open>dict.get(key, default)\<close>\<close>
  "dict_get d k dflt = (case d k of None \<Rightarrow> dflt | Some v \<Rightarrow> v)"

definition gs_command :: "string \<Rightarrow> path \<Rightarrow> path \<Rightarrow> string \<Rightarrow> string list" where
  "gs_command gs_binary input_path output_path quality =
     [gs_binary,
      ''-dNOPAUSE'',
      ''-dBATCH'',
      ''-dQUIET'',
      ''-sDEVICE=pdfwrite'',
      ''-dCompatibilityLevel=1.7'',
      ''-dPDFSETTINGS='' @ dict_get quality_settings quality ''/printer'',
      ''-dMaxSubsetPct=100'',
      ''-dSubsetFonts=true'',
      ''-dEmbedAllFonts=true'',
      ''-dAutoRotatePages=/None'',
      ''-dColorImageDownsampleType=/Bicubic'',
      ''-dColorImageResolution=300'',
      ''-dGrayImageDownsampleType=/Bicubic'',
      ''-dGrayImageResolution=300'',
      ''-dMonoImageDownsampleType=/Bicubic'',
      ''-dMonoImageResolution=300'',
      ''-dDownsampleColorImages=false'',
      ''-dDownsampleGrayImages=false'',
      ''-dDownsampleMonoImages=false'',
      ''-dColorConversionStrategy=/LeaveColorUnchanged'',
      ''-dAutoFilterColorImages=false'',
      ''-dAutoFilterGrayImages=false'',
      ''-dCompressPages=true'',
      ''-sOutputFile='' @ output_path,
      input_path]"

definition compress_pdf ::
  "engine \<Rightarrow> string \<Rightarrow> path \<Rightarrow> path \<Rightarrow> string \<Rightarrow> world \<Rightarrow> (py_error + bool) \<times> world" where
  \<comment> \<open>\<^verbatim>\<open>check=True\<close> raises \<^verbatim>\<open>CalledProcessError\<close> on a non-zero exit code. Its handler
      decodes the captured standard error as UTF-8; an exception raised inside a handler
      is not caught by the handlers of the same \<^verbatim>\<open>try\<close> and leaves the function.\<close>
  "compress_pdf eng system input_path output_path quality w =
     (let gs_binary = get_gs_binary system (files w);
          gs_cmd = gs_command gs_binary input_path output_path quality
      in case subprocess_run eng gs_cmd w of
           (Completed rc out err fs', w1) \<Rightarrow>
             (if rc = 0 then (Inr True, w1)
              else (case err of
                      Text t \<Rightarrow> (Inr False, say (MsgGsError t) w1)
                    | Undecodable t \<Rightarrow> (Inl UnicodeDecodeError, w1)))
         | (NotFound t, w1) \<Rightarrow> (Inr False, say (MsgError t) w1)
         | (LaunchError t, w1) \<Rightarrow> (Inr False, say (MsgError t) w1))"

definition path_seps :: "string \<Rightarrow> char list" where
  \<comment> \<open>The separators of \<^verbatim>\<open>os.path\<close>: \<^verbatim>\<open>ntpath\<close> on Windows, \<^verbatim>\<open>posixpath\<close> elsewhere.\<close>
  "path_seps system = (if str_lower system = ''windows'' then [backslash, CHR ''/''] else ''/'')"

definition splitext :: "char list \<Rightarrow> path \<Rightarrow> path \<times> string" where
  \<comment> \<open>\<^verbatim>\<open>os.path.splitext\<close>: the extension starts at the last dot of the last component,
      unless only dots come before it there.\<close>
  "splitext seps p =
     (let base = rev (takeWhile (\<lambda>c. c \<notin> set seps) (rev p));
          ext = rev (takeWhile (\<lambda>c. c \<noteq> CHR ''.'') (rev base));
          stem = take (length base - length ext - 1) base
      in if CHR ''.'' \<in> set base \<and> \<not> list_all (\<lambda>c. c = CHR ''.'') stem
         then (take (length p - length ext - 1) p, CHR ''.'' # ext)
         else (p, []))"

definition quality_levels :: "string list" where
  "quality_levels = [''printer'', ''ebook'', ''screen'']"

fun try_levels ::
  "engine \<Rightarrow> string \<Rightarrow> path \<Rightarrow> path \<Rightarrow> rat \<Rightarrow> string list \<Rightarrow> world \<Rightarrow> (py_error + bool) \<times> world"
  where
  \<comment> \<open>The \<^verbatim>\<open>for\<close> loop of \<^verbatim>\<open>main\<close>; the result is the variable \<^verbatim>\<open>success\<close> when the loop ends.
      The reduction is computed before the sizes are compared, and a float division by
      zero raises.\<close>
  "try_levels eng system input_pdf output_pdf original_size [] w = (Inr False, w)"
| "try_levels eng system input_pdf output_pdf original_size (quality # rest) w =
     (case compress_pdf eng system input_pdf output_pdf quality (say (MsgTrying quality) w) of
        (Inl e, w1) \<Rightarrow> (Inl e, w1)
      | (Inr False, w1) \<Rightarrow> try_levels eng system input_pdf output_pdf original_size rest w1
      | (Inr True, w1) \<Rightarrow>
          (case get_file_size (files w1) output_pdf of
             Inl e \<Rightarrow> (Inl e, w1)
           | Inr compressed_size \<Rightarrow>
               if original_size = 0 then (Inl ZeroDivisionError, w1)
               else let reduction = (original_size - compressed_size) / original_size * 100
                    in if compressed_size < original_size
                       then (Inr True,
                             says [MsgSuccess quality, MsgOriginalSize original_size,
                                   MsgCompressedSize compressed_size, MsgReduction reduction,
                                   MsgSavedAs output_pdf] w1)
                       else (case os_remove output_pdf (say MsgNextLevel w1) of
                               (Inl e, w2) \<Rightarrow> (Inl e, w2)
                             | (Inr u, w2) \<Rightarrow>
                                 try_levels eng system input_pdf output_pdf original_size
                                   rest w2)))"

definition main :: "engine \<Rightarrow> string \<Rightarrow> string list \<Rightarrow> world \<Rightarrow> (py_error + unit) \<times> world" where
  \<comment> \<open>The arguments are the engine, \<^verbatim>\<open>platform.system()\<close>, \<^verbatim>\<open>sys.argv\<close> and the world the
      script starts in.\<close>
  "main eng system argv w =
     (if length argv \<noteq> 2 then (Inr (), says [MsgUsage, MsgExample] w)
      else case check_ghostscript eng system w of
             (False, w1) \<Rightarrow> (Inr (), w1)
           | (True, w1) \<Rightarrow>
               (let input_pdf = argv ! 1
                in if \<not> check_pdf (files w1) input_pdf
                   then (Inr (), say MsgInvalidInput w1)
                   else
                     (let output_pdf =
                            fst (splitext (path_seps system) input_pdf) @ ''_compressed.pdf''
                      in case get_file_size (files w1) input_pdf of
                           Inl e \<Rightarrow> (Inl e, w1)
                         | Inr original_size \<Rightarrow>
                             (case try_levels eng system input_pdf output_pdf original_size
                                     quality_levels
                                     (says [MsgOriginalSize original_size, MsgCompressing] w1) of
                                (Inl e, w2) \<Rightarrow> (Inl e, w2)
                              | (Inr True, w2) \<Rightarrow> (Inr (), w2)
                              | (Inr False, w2) \<Rightarrow>
                                  (Inr (),
                                   says [MsgNoReduction, MsgPossibleCauses,
                                         MsgHint 1, MsgHint 2, MsgHint 3] w2)))))"

subsection \<open>Reading the trail\<close>

fun runs :: "event list \<Rightarrow> string list list" where
  \<comment> \<open>The subprocess invocations, in order.\<close>
  "runs [] = []"
| "runs (Run c # es) = c # runs es"
| "runs (Remove p # es) = runs es"
| "runs (Print m # es) = runs es"

fun removals :: "event list \<Rightarrow> path list" where
  \<comment> \<open>The files removed, in order.\<close>
  "removals [] = []"
| "removals (Run c # es) = removals es"
| "removals (Remove p # es) = p # removals es"
| "removals (Print m # es) = removals es"

fun printed :: "event list \<Rightarrow> message list" where
  \<comment> \<open>The messages printed, in order.\<close>
  "printed [] = []"
| "printed (Run c # es) = printed es"
| "printed (Remove p # es) = printed es"
| "printed (Print m # es) = m # printed es"

fun is_diagnostic :: "message \<Rightarrow> bool" where
  \<comment> \<open>The messages that repeat a text of the engine or of an exception.\<close>
  "is_diagnostic (MsgGsError t) = True"
| "is_diagnostic (MsgError t) = True"
| "is_diagnostic (MsgCheckError t) = True"
| "is_diagnostic m = False"

definition progress :: "event list \<Rightarrow> message list" where
  \<comment> \<open>What the run reports of its own decisions: every message but the diagnostics.\<close>
  "progress es = filter (\<lambda>m. \<not> is_diagnostic m) (printed es)"

fun tried_level :: "message \<Rightarrow> string list" where
  "tried_level (MsgTrying q) = [q]"
| "tried_level m = []"

definition tried :: "event list \<Rightarrow> string list" where
  \<comment> \<open>The presets the loop has announced, in order.\<close>
  "tried es = concat (map tried_level (printed es))"

datatype verdict = Crashed | Failed | Succeeded "nat option"

definition verdict_of :: "path \<Rightarrow> proc_result \<Rightarrow> verdict" where
  \<comment> \<open>What the loop can see of one compression attempt: whether the driver raised,
      returned \<^verbatim>\<open>False\<close> or returned \<^verbatim>\<open>True\<close>, and then the size of the file at the output
      path, if there is one.\<close>
  "verdict_of out r =
     (case r of
        Completed rc so se fs' \<Rightarrow>
          if rc = 0 then Succeeded (fs' out)
          else (case se of Text t \<Rightarrow> Failed | Undecodable t \<Rightarrow> Crashed)
      | NotFound t \<Rightarrow> Failed
      | LaunchError t \<Rightarrow> Failed)"

definition left_by :: "proc_result \<Rightarrow> filesystem \<Rightarrow> filesystem" where
  \<comment> \<open>The filesystem after an invocation that started on \<open>fs\<close>.\<close>
  "left_by r fs = (case r of Completed rc so se fs' \<Rightarrow> fs' | NotFound t \<Rightarrow> fs | LaunchError t \<Rightarrow> fs)"

subsection \<open>Scenarios\<close>

text \<open>
  Concrete engines and worlds on which the theorems below are instantiated. Sizes are in
  bytes. The engines read the preset and the output path from the argument list that
  \<^const>\<open>gs_command\<close> builds (positions 6 and 24).
\<close>

definition newline :: char where
  "newline = char_of (10 :: nat)"

definition version_reply :: "string \<Rightarrow> filesystem \<Rightarrow> proc_result" where
  "version_reply v fs = Completed 0 (Text (v @ [newline])) (Text []) fs"

definition is_version_query :: "string list \<Rightarrow> bool" where
  "is_version_query cmd = (tl cmd = [''--version''])"

definition preset_of :: "string list \<Rightarrow> string" where
  "preset_of cmd = drop 14 (cmd ! 6)"

definition output_of :: "string list \<Rightarrow> path" where
  "output_of cmd = drop 13 (cmd ! 24)"

definition writes :: "nat \<Rightarrow> string list \<Rightarrow> filesystem \<Rightarrow> proc_result" where
  \<comment> \<open>The engine exits with code 0 and leaves a file of the given size at the output path.\<close>
  "writes n cmd fs = Completed 0 (Text []) (Text []) (fs(output_of cmd \<mapsto> n))"

definition engine_example :: engine where
  \<comment> \<open>The example of the specification, scaled: the highest preset yields 105 bytes, the
      lower ones 60.\<close>
  "engine_example cmd fs =
     (if is_version_query cmd then version_reply ''10.04.0'' fs
      else if preset_of cmd = ''/printer'' then writes 105 cmd fs
      else writes 60 cmd fs)"


definition engine_growing :: engine where
  \<comment> \<open>Every preset yields 120 bytes.\<close>
  "engine_growing cmd fs =
     (if is_version_query cmd then version_reply ''10.04.0'' fs else writes 120 cmd fs)"

definition engine_partial :: engine where
  \<comment> \<open>Every compression exits with code 1 after it has written 150 bytes of output.\<close>
  "engine_partial cmd fs =
     (if is_version_query cmd then version_reply ''10.04.0'' fs
      else Completed 1 (Text []) (Text ''Error: /syntaxerror in pdf'')
             (fs(output_of cmd \<mapsto> 150)))"

definition engine_garbled :: engine where
  \<comment> \<open>Every compression exits with code 1, and its standard error is not UTF-8.\<close>
  "engine_garbled cmd fs =
     (if is_version_query cmd then version_reply ''10.04.0'' fs
      else Completed 1 (Text []) (Undecodable ''invalid start byte'') fs)"

definition engine_denied :: engine where
  \<comment> \<open>The binary is there and may not be executed: launching raises \<^verbatim>\<open>PermissionError\<close>.\<close>
  "engine_denied cmd fs = LaunchError ''[Errno 13] Permission denied''"

definition engine_missing :: engine where
  \<comment> \<open>There is no such binary.\<close>
  "engine_missing cmd fs = NotFound ''[Errno 2] No such file or directory''"

definition engine_old :: engine where
  \<comment> \<open>An engine of another version.\<close>
  "engine_old cmd fs =
     (if is_version_query cmd then version_reply ''9.55.0'' fs else writes 60 cmd fs)"

definition world_report :: world where
  "world_report = \<lparr>files = [''report.pdf'' \<mapsto> 100], trail = []\<rparr>"

definition world_empty_pdf :: world where
  \<comment> \<open>A file of zero bytes with the expected extension.\<close>
  "world_empty_pdf = \<lparr>files = [''empty.pdf'' \<mapsto> 0], trail = []\<rparr>"

definition argv_report :: "string list" where
  "argv_report = [''pdf_compressor.py'', ''report.pdf'']"

definition argv_ghost :: "string list" where
  "argv_ghost = [''pdf_compressor.py'', ''ghost.pdf'']"

definition argv_empty_pdf :: "string list" where
  "argv_empty_pdf = [''pdf_compressor.py'', ''empty.pdf'']"

section \<open>Properties\<close>

subsection \<open>The trail grows, and how\<close>

lemma runs_append [simp]: "runs (a @ b) = runs a @ runs b"
  by (induction a rule: runs.induct) simp_all

lemma removals_append [simp]: "removals (a @ b) = removals a @ removals b"
  by (induction a rule: removals.induct) simp_all

lemma printed_append [simp]: "printed (a @ b) = printed a @ printed b"
  by (induction a rule: printed.induct) simp_all

lemma runs_Print [simp]: "runs (map Print ms) = []"
  by (induction ms) simp_all

lemma removals_Print [simp]: "removals (map Print ms) = []"
  by (induction ms) simp_all

lemma printed_Print [simp]: "printed (map Print ms) = ms"
  by (induction ms) simp_all

lemma progress_append [simp]: "progress (a @ b) = progress a @ progress b"
  by (simp add: progress_def)

lemma tried_append [simp]: "tried (a @ b) = tried a @ tried b"
  by (simp add: tried_def)

lemma trail_say [simp]: "trail (say m w) = trail w @ [Print m]"
  by (simp add: say_def)

lemma files_say [simp]: "files (say m w) = files w"
  by (simp add: say_def)

lemma trail_says [simp]: "trail (says ms w) = trail w @ map Print ms"
  by (simp add: says_def)

lemma files_says [simp]: "files (says ms w) = files w"
  by (simp add: says_def)

lemma subprocess_run_trail [simp]:
  "trail (snd (subprocess_run eng cmd w)) = trail w @ [Run cmd]"
  by (simp add: subprocess_run_def Let_def split: proc_result.splits)

lemma subprocess_run_result [simp]:
  "fst (subprocess_run eng cmd w) = eng cmd (files w)"
  by (simp add: subprocess_run_def Let_def split: proc_result.splits)

lemma subprocess_run_files [simp]:
  "files (snd (subprocess_run eng cmd w)) = left_by (eng cmd (files w)) (files w)"
  by (simp add: subprocess_run_def left_by_def Let_def split: proc_result.splits)

subsection \<open>The version check and the driver, unfolded\<close>

lemma check_ghostscript_unfold:
  "check_ghostscript eng system w =
     (let r = eng [get_gs_binary system (files w), ''--version''] (files w);
          w1 = snd (subprocess_run eng [get_gs_binary system (files w), ''--version''] w)
      in case r of
           NotFound t \<Rightarrow>
             (False, says ([MsgGsNotFound, MsgPleaseInstall] @ install_steps system) w1)
         | LaunchError t \<Rightarrow> (False, say (MsgCheckError t) w1)
         | Completed rc (Undecodable t) err fs' \<Rightarrow> (False, say (MsgCheckError t) w1)
         | Completed rc (Text out) (Undecodable t) fs' \<Rightarrow> (False, say (MsgCheckError t) w1)
         | Completed rc (Text out) (Text err) fs' \<Rightarrow>
             (if \<not> startswith (strip out) ''10.04''
              then (False,
                    says ([MsgVersionWarning (strip out), MsgOptimizedFor, MsgInstallHeader]
                          @ install_steps system) w1)
              else (True, w1)))"
proof -
  obtain r w1 where rw: "subprocess_run eng [get_gs_binary system (files w), ''--version''] w = (r, w1)"
    by (cases "subprocess_run eng [get_gs_binary system (files w), ''--version''] w")
  have "r = eng [get_gs_binary system (files w), ''--version''] (files w)"
    using subprocess_run_result [of eng "[get_gs_binary system (files w), ''--version'']" w] rw by simp
  then show ?thesis
    unfolding check_ghostscript_def Let_def rw
    by (simp split: proc_result.splits captured.splits)
qed

lemma check_ghostscript_runs:
  "runs (trail (snd (check_ghostscript eng system w))) =
     runs (trail w) @ [[get_gs_binary system (files w), ''--version'']]"
  by (simp add: check_ghostscript_unfold Let_def split: proc_result.splits captured.splits)

lemma check_ghostscript_removals:
  "removals (trail (snd (check_ghostscript eng system w))) = removals (trail w)"
  by (simp add: check_ghostscript_unfold Let_def split: proc_result.splits captured.splits)

lemma compress_pdf_unfold:
  "compress_pdf eng system inp out q w =
     (let cmd = gs_command (get_gs_binary system (files w)) inp out q;
          w1 = snd (subprocess_run eng cmd w)
      in case verdict_of out (eng cmd (files w)) of
           Succeeded s \<Rightarrow> (Inr True, w1)
         | Crashed \<Rightarrow> (Inl UnicodeDecodeError, w1)
         | Failed \<Rightarrow>
             (Inr False,
              say (case eng cmd (files w) of
                     Completed rc so (Text t) fs' \<Rightarrow> MsgGsError t
                   | NotFound t \<Rightarrow> MsgError t
                   | LaunchError t \<Rightarrow> MsgError t) w1))"
proof -
  let ?cmd = "gs_command (get_gs_binary system (files w)) inp out q"
  obtain r w1 where rw: "subprocess_run eng ?cmd w = (r, w1)"
    by (cases "subprocess_run eng ?cmd w")
  have "r = eng ?cmd (files w)"
    using subprocess_run_result [of eng ?cmd w] rw by simp
  then show ?thesis
    unfolding compress_pdf_def Let_def rw verdict_of_def
    by (simp split: proc_result.splits captured.splits)
qed


lemma compress_pdf_runs:
  "runs (trail (snd (compress_pdf eng system inp out q w))) =
     runs (trail w) @ [gs_command (get_gs_binary system (files w)) inp out q]"
  by (simp add: compress_pdf_unfold Let_def split: verdict.splits)

lemma compress_pdf_removals:
  "removals (trail (snd (compress_pdf eng system inp out q w))) = removals (trail w)"
  by (simp add: compress_pdf_unfold Let_def split: verdict.splits)

lemma compress_pdf_tried:
  "tried (trail (snd (compress_pdf eng system inp out q w))) = tried (trail w)"
  by (simp add: compress_pdf_unfold Let_def tried_def verdict_of_def
      split: verdict.splits proc_result.splits captured.splits if_splits)


lemma compress_pdf_files:
  "files (snd (compress_pdf eng system inp out q w)) =
     left_by (eng (gs_command (get_gs_binary system (files w)) inp out q) (files w)) (files w)"
  by (simp add: compress_pdf_unfold Let_def split: verdict.splits)

lemma compress_pdf_verdict:
  "fst (compress_pdf eng system inp out q w) =
     (case verdict_of out (eng (gs_command (get_gs_binary system (files w)) inp out q) (files w)) of
        Succeeded s \<Rightarrow> Inr True | Crashed \<Rightarrow> Inl UnicodeDecodeError | Failed \<Rightarrow> Inr False)"
  by (simp add: compress_pdf_unfold Let_def split: verdict.splits)

lemma try_levels_failed:
  assumes "compress_pdf eng system inp out q (say (MsgTrying q) w) = (Inr False, w1)"
  shows "try_levels eng system inp out orig (q # rest) w = try_levels eng system inp out orig rest w1"
  using assms by simp


lemma try_levels_rejected:
  assumes "compress_pdf eng system inp out q (say (MsgTrying q) w) = (Inr True, w1)"
    and "get_file_size (files w1) out = Inr c" and "orig \<noteq> 0" and "\<not> c < orig"
  shows "try_levels eng system inp out orig (q # rest) w =
           try_levels eng system inp out orig rest
             (w1\<lparr>files := (files w1)(out := None),
                 trail := trail w1 @ [Print MsgNextLevel, Remove out]\<rparr>)"
proof -
  have "files w1 out \<noteq> None"
    using assms(2) by (auto simp: get_file_size_def split: option.splits)
  then have "os_remove out (say MsgNextLevel w1) =
      (Inr (), w1\<lparr>files := (files w1)(out := None),
                  trail := trail w1 @ [Print MsgNextLevel, Remove out]\<rparr>)"
    by (simp add: os_remove_def say_def)
  then show ?thesis using assms by simp
qed

lemma try_levels_accepted:
  assumes "compress_pdf eng system inp out q (say (MsgTrying q) w) = (Inr True, w1)"
    and "get_file_size (files w1) out = Inr c" and "c < orig"
  shows "try_levels eng system inp out orig (q # rest) w =
           (Inr True,
            says [MsgSuccess q, MsgOriginalSize orig, MsgCompressedSize c,
                  MsgReduction ((orig - c) / orig * 100), MsgSavedAs out] w1)"
proof -
  have "0 \<le> c" using assms(2) by (auto simp: get_file_size_def split: option.splits)
  then have "orig \<noteq> 0" using assms(3) by simp
  then show ?thesis using assms by (simp add: Let_def)
qed

lemma get_file_size_cases:
  "(get_file_size fs p = Inl OSError \<and> fs p = None) \<or>
   (\<exists>n. fs p = Some n \<and> get_file_size fs p = Inr (of_nat n / (1024 * 1024)))"
  by (cases "fs p") (simp_all add: get_file_size_def)

text \<open>Every way one iteration of the loop can go.\<close>

lemma try_levels_step:
  obtains (raised) e w1 where
      "compress_pdf eng system inp out q (say (MsgTrying q) w) = (Inl e, w1)"
      "try_levels eng system inp out orig (q # rest) w = (Inl e, w1)"
  | (failed) w1 where
      "compress_pdf eng system inp out q (say (MsgTrying q) w) = (Inr False, w1)"
      "try_levels eng system inp out orig (q # rest) w = try_levels eng system inp out orig rest w1"
  | (vanished) w1 where
      "compress_pdf eng system inp out q (say (MsgTrying q) w) = (Inr True, w1)"
      "files w1 out = None"
      "try_levels eng system inp out orig (q # rest) w = (Inl OSError, w1)"
  | (zero) w1 c where
      "compress_pdf eng system inp out q (say (MsgTrying q) w) = (Inr True, w1)"
      "get_file_size (files w1) out = Inr c" "orig = 0"
      "try_levels eng system inp out orig (q # rest) w = (Inl ZeroDivisionError, w1)"
  | (accepted) w1 c where
      "compress_pdf eng system inp out q (say (MsgTrying q) w) = (Inr True, w1)"
      "get_file_size (files w1) out = Inr c" "c < orig"
      "try_levels eng system inp out orig (q # rest) w =
         (Inr True,
          says [MsgSuccess q, MsgOriginalSize orig, MsgCompressedSize c,
                MsgReduction ((orig - c) / orig * 100), MsgSavedAs out] w1)"
  | (rejected) w1 c where
      "compress_pdf eng system inp out q (say (MsgTrying q) w) = (Inr True, w1)"
      "get_file_size (files w1) out = Inr c" "orig \<noteq> 0" "\<not> c < orig"
      "try_levels eng system inp out orig (q # rest) w =
         try_levels eng system inp out orig rest
           (w1\<lparr>files := (files w1)(out := None),
               trail := trail w1 @ [Print MsgNextLevel, Remove out]\<rparr>)"
proof -
  obtain r w1 where c: "compress_pdf eng system inp out q (say (MsgTrying q) w) = (r, w1)"
    by (cases "compress_pdf eng system inp out q (say (MsgTrying q) w)")
  show thesis
  proof (cases r)
    case (Inl e)
    with c raised show ?thesis by simp
  next
    case (Inr b)
    show ?thesis
    proof (cases b)
      case False
      with c Inr failed show ?thesis by simp
    next
      case True
      from c Inr True
      have ok: "compress_pdf eng system inp out q (say (MsgTrying q) w) = (Inr True, w1)"
        by simp
      from get_file_size_cases [of "files w1" out] show ?thesis
      proof
        assume a: "get_file_size (files w1) out = Inl OSError \<and> files w1 out = None"
        then have t: "try_levels eng system inp out orig (q # rest) w = (Inl OSError, w1)"
          using ok by simp
        from a have "files w1 out = None" by simp
        from vanished [OF ok this t] show ?thesis .
      next
        assume "\<exists>n. files w1 out = Some n \<and> get_file_size (files w1) out = Inr (of_nat n / (1024 * 1024))"
        then obtain n where n: "get_file_size (files w1) out = Inr (of_nat n / (1024 * 1024))"
          by blast
        show ?thesis
        proof (cases "orig = 0")
          case True
          then have "try_levels eng system inp out orig (q # rest) w = (Inl ZeroDivisionError, w1)"
            using ok n by simp
          from zero [OF ok n True this] show ?thesis .
        next
          case nz: False
          show ?thesis
          proof (cases "of_nat n / (1024 * 1024) < orig")
            case True
            from accepted [OF ok n True] try_levels_accepted [OF ok n True] show ?thesis .
          next
            case False
            from rejected [OF ok n nz False] try_levels_rejected [OF ok n nz False] show ?thesis .
          qed
        qed
      qed
    qed
  qed
qed

subsection \<open>The early returns of \<^const>\<open>main\<close>\<close>

lemma main_rejected_input:
  assumes "\<not> check_pdf (files (snd (check_ghostscript eng system w))) p"
  shows "main eng system [prog, p] w =
           (Inr (), if fst (check_ghostscript eng system w)
                    then say MsgInvalidInput (snd (check_ghostscript eng system w))
                    else snd (check_ghostscript eng system w))"
  using assms by (cases "check_ghostscript eng system w") (simp add: main_def)

lemma main_engine_rejected:
  assumes "\<not> fst (check_ghostscript eng system w)"
  shows "main eng system [prog, p] w = (Inr (), snd (check_ghostscript eng system w))"
  using assms by (cases "check_ghostscript eng system w") (simp add: main_def)

subsection \<open>Claim C1: an invalid input and the subprocesses\<close>

text \<open>
  C1, as stated: for an input path that fails the existence or extension check, no engine
  process is started, neither the version query nor a compression attempt.
  The statement fails: \<^const>\<open>main\<close> calls \<^const>\<open>check_ghostscript\<close> before \<^const>\<open>check_pdf\<close>, so
  the version query has run when the input is looked at. For the missing file
  \<^verbatim>\<open>ghost.pdf\<close> the trail holds the invocation \<^verbatim>\<open>gs --version\<close>.
\<close>

theorem invalid_input_version_query_started:
  "\<not> check_pdf (files world_report) ''ghost.pdf''
   \<and> runs (trail (snd (main engine_example ''Linux'' argv_ghost world_report))) =
       [[''gs'', ''--version'']]"
  by code_simp

text \<open>
  C1, amended: for every invocation whose input path fails the existence or extension
  check, the run returns without raising, the only subprocess it starts is the engine
  version query (which runs before the input is validated), no compression attempt is
  started, no file is removed, and the filesystem is the one the version query left.
\<close>

theorem invalid_input_only_version_query:
  assumes "\<not> check_pdf (files (snd (check_ghostscript eng system w))) p"
  shows "fst (main eng system [prog, p] w) = Inr ()
     \<and> runs (trail (snd (main eng system [prog, p] w))) =
         runs (trail w) @ [[get_gs_binary system (files w), ''--version'']]
     \<and> removals (trail (snd (main eng system [prog, p] w))) = removals (trail w)
     \<and> files (snd (main eng system [prog, p] w)) = files (snd (check_ghostscript eng system w))"
  by (simp add: main_rejected_input [OF assms] check_ghostscript_runs check_ghostscript_removals)

text \<open>The amended C1 at the missing file \<^verbatim>\<open>ghost.pdf\<close>.\<close>

theorem invalid_input_only_version_query_witness:
  "\<not> check_pdf (files (snd (check_ghostscript engine_example ''Linux'' world_report))) ''ghost.pdf''
   \<and> fst (main engine_example ''Linux'' argv_ghost world_report) = Inr ()
   \<and> runs (trail (snd (main engine_example ''Linux'' argv_ghost world_report))) =
       [[''gs'', ''--version'']]
   \<and> removals (trail (snd (main engine_example ''Linux'' argv_ghost world_report))) = []"
proof -
  have h: "\<not> check_pdf (files (snd (check_ghostscript engine_example ''Linux'' world_report))) ''ghost.pdf''"
    by code_simp
  have b: "get_gs_binary ''Linux'' (files world_report) = ''gs''" by code_simp
  have t: "trail world_report = []" by (simp add: world_report_def)
  from invalid_input_only_version_query [OF h, of "''pdf_compressor.py''"] h b t show ?thesis
    by (simp add: argv_ghost_def)
qed

subsection \<open>Claim C10: a quality argument outside the table\<close>

text \<open>
  C10: for every quality string outside \<^verbatim>\<open>printer\<close>, \<^verbatim>\<open>ebook\<close>, \<^verbatim>\<open>screen\<close> the driver does not
  reject the argument; it builds the engine command with the \<^verbatim>\<open>/printer\<close> settings, the
  very command it builds for \<^verbatim>\<open>printer\<close>, and so behaves as it does for \<^verbatim>\<open>printer\<close>.
\<close>

theorem unknown_quality_falls_back:
  assumes "quality \<notin> {''printer'', ''ebook'', ''screen''}"
  shows "gs_command gs_binary inp out quality ! 6 = ''-dPDFSETTINGS=/printer''
     \<and> gs_command gs_binary inp out quality = gs_command gs_binary inp out ''printer''
     \<and> compress_pdf eng system inp out quality w = compress_pdf eng system inp out ''printer'' w"
proof -
  have "dict_get quality_settings quality ''/printer'' = ''/printer''"
    using assms by (simp add: dict_get_def quality_settings_def)
  moreover have "dict_get quality_settings ''printer'' ''/printer'' = ''/printer''"
    by (simp add: dict_get_def quality_settings_def)
  ultimately have "gs_command b inp out quality = gs_command b inp out ''printer''" for b
    by (simp add: gs_command_def)
  then show ?thesis
    by (simp add: compress_pdf_def) (simp add: gs_command_def dict_get_def quality_settings_def)
qed

text \<open>C10 at the quality \<^verbatim>\<open>best\<close>: the driver runs the engine and returns \<^verbatim>\<open>True\<close>.\<close>

theorem unknown_quality_falls_back_witness:
  "''best'' \<notin> {''printer'', ''ebook'', ''screen''}
   \<and> gs_command ''gs'' ''report.pdf'' ''report_compressed.pdf'' ''best'' ! 6 = ''-dPDFSETTINGS=/printer''
   \<and> fst (compress_pdf engine_example ''Linux'' ''report.pdf'' ''report_compressed.pdf'' ''best'' world_report) = Inr True"
proof -
  have h: "''best'' \<notin> {''printer'', ''ebook'', ''screen''}" by simp
  have p: "fst (compress_pdf engine_example ''Linux'' ''report.pdf'' ''report_compressed.pdf'' ''printer'' world_report) = Inr True"
    by code_simp
  note r = unknown_quality_falls_back [OF h, of "''gs''" "''report.pdf''" "''report_compressed.pdf''"
      engine_example "''Linux''" world_report]
  from r have a: "gs_command ''gs'' ''report.pdf'' ''report_compressed.pdf'' ''best'' ! 6 =
      ''-dPDFSETTINGS=/printer''"
    by (rule conjunct1)
  from r have c: "compress_pdf engine_example ''Linux'' ''report.pdf'' ''report_compressed.pdf''
       ''best'' world_report =
     compress_pdf engine_example ''Linux'' ''report.pdf'' ''report_compressed.pdf''
       ''printer'' world_report"
    by (rule conjunct2 [THEN conjunct2])
  from p have "fst (compress_pdf engine_example ''Linux'' ''report.pdf'' ''report_compressed.pdf''
       ''best'' world_report) = Inr True"
    by (simp only: c)
  with h a show ?thesis by (intro conjI)
qed

subsection \<open>Claim C6: when the version check aborts the run\<close>

text \<open>
  C6, as stated: the version check aborts the run in exactly two failure cases, the engine
  not being found and the version string not starting with \<^verbatim>\<open>10.04\<close>.
  The statement fails: the last handler of \<^const>\<open>check_ghostscript\<close> catches every other
  exception and returns \<^verbatim>\<open>False\<close> as well. When launching the engine raises
  \<^verbatim>\<open>PermissionError\<close>, the engine is neither missing nor of another version, the check
  fails, and \<^const>\<open>main\<close> returns after the version query alone.
\<close>

theorem version_check_third_failure_case:
  "engine_denied [''gs'', ''--version''] (files world_report) = LaunchError ''[Errno 13] Permission denied''
   \<and> fst (check_ghostscript engine_denied ''Linux'' world_report) = False
   \<and> fst (main engine_denied ''Linux'' argv_report world_report) = Inr ()
   \<and> trail (snd (main engine_denied ''Linux'' argv_report world_report)) =
       [Run [''gs'', ''--version''], Print (MsgCheckError ''[Errno 13] Permission denied'')]"
proof -
  have "engine_denied [''gs'', ''--version''] (files world_report) = LaunchError ''[Errno 13] Permission denied''"
    by (simp add: engine_denied_def)
  moreover have "fst (check_ghostscript engine_denied ''Linux'' world_report) = False"
    by code_simp
  moreover have "fst (main engine_denied ''Linux'' argv_report world_report) = Inr ()"
    by code_simp
  moreover have "trail (snd (main engine_denied ''Linux'' argv_report world_report)) =
       [Run [''gs'', ''--version''], Print (MsgCheckError ''[Errno 13] Permission denied'')]"
    by code_simp
  ultimately show ?thesis by blast
qed

text \<open>
  C6, amended: the version check fails in exactly these cases: launching the engine
  raises process-not-found; the engine ran and its version string, stripped, does not
  start with \<^verbatim>\<open>10.04\<close>; the invocation raises any other exception (another launch error,
  or captured output that does not decode). In each of them \<^const>\<open>main\<close> returns without
  attempting any compression: the version query is the only subprocess.
\<close>

theorem version_check_failure_cases:
  "(\<not> fst (check_ghostscript eng system w)) =
     (let r = eng [get_gs_binary system (files w), ''--version''] (files w)
      in (\<exists>t. r = NotFound t)
       \<or> (\<exists>rc out err fs'. r = Completed rc (Text out) (Text err) fs'
             \<and> \<not> startswith (strip out) ''10.04'')
       \<or> (\<exists>t. r = LaunchError t)
       \<or> (\<exists>rc so se fs' t. r = Completed rc so se fs' \<and> (so = Undecodable t \<or> se = Undecodable t)))
   \<and> (\<not> fst (check_ghostscript eng system w) \<longrightarrow>
        main eng system [prog, p] w = (Inr (), snd (check_ghostscript eng system w))
        \<and> runs (trail (snd (main eng system [prog, p] w))) =
            runs (trail w) @ [[get_gs_binary system (files w), ''--version'']])"
proof -
  have "(\<not> fst (check_ghostscript eng system w)) =
     (let r = eng [get_gs_binary system (files w), ''--version''] (files w)
      in (\<exists>t. r = NotFound t)
       \<or> (\<exists>rc out err fs'. r = Completed rc (Text out) (Text err) fs'
             \<and> \<not> startswith (strip out) ''10.04'')
       \<or> (\<exists>t. r = LaunchError t)
       \<or> (\<exists>rc so se fs' t. r = Completed rc so se fs' \<and> (so = Undecodable t \<or> se = Undecodable t)))"
    by (auto simp: check_ghostscript_unfold Let_def split: proc_result.splits captured.splits)
  then show ?thesis
    by (simp add: main_engine_rejected check_ghostscript_runs)
qed

text \<open>The amended C6 at an engine that reports version 9.55.0.\<close>

theorem version_check_failure_cases_witness:
  "\<not> fst (check_ghostscript engine_old ''Linux'' world_report)
   \<and> main engine_old ''Linux'' argv_report world_report =
       (Inr (), snd (check_ghostscript engine_old ''Linux'' world_report))
   \<and> runs (trail (snd (main engine_old ''Linux'' argv_report world_report))) = [[''gs'', ''--version'']]"
proof -
  have h: "\<not> fst (check_ghostscript engine_old ''Linux'' world_report)"
    by code_simp
  have b: "get_gs_binary ''Linux'' (files world_report) = ''gs''" by code_simp
  have t: "trail world_report = []" by (simp add: world_report_def)
  note r = version_check_failure_cases [of engine_old "''Linux''" world_report "''pdf_compressor.py''" "''report.pdf''"]
  from r h have m: "main engine_old ''Linux'' [''pdf_compressor.py'', ''report.pdf''] world_report =
      (Inr (), snd (check_ghostscript engine_old ''Linux'' world_report))"
    by blast
  from r h have "runs (trail (snd (main engine_old ''Linux'' [''pdf_compressor.py'', ''report.pdf'']
      world_report))) = runs (trail world_report) @ [[get_gs_binary ''Linux'' (files world_report), ''--version'']]"
    by blast
  then have "runs (trail (snd (main engine_old ''Linux'' [''pdf_compressor.py'', ''report.pdf'']
      world_report))) = [[''gs'', ''--version'']]"
    by (simp only: b t runs.simps append_Nil)
  with h m show ?thesis unfolding argv_report_def by (intro conjI)
qed

subsection \<open>Claim C9: the division by the original size\<close>

lemma compress_pdf_no_zero_division:
  "fst (compress_pdf eng system inp out q w) \<noteq> Inl ZeroDivisionError"
  by (simp add: compress_pdf_verdict split: verdict.splits)

lemma try_levels_no_zero_division:
  assumes "orig \<noteq> 0"
  shows "fst (try_levels eng system inp out orig qs w) \<noteq> Inl ZeroDivisionError"
proof (induction qs arbitrary: w)
  case Nil
  show ?case by simp
next
  case (Cons q rest)
  show ?case
  proof (cases rule: try_levels_step [of eng system inp out q w orig rest])
    case (raised e w1)
    from compress_pdf_no_zero_division [of eng system inp out q "say (MsgTrying q) w"] raised(1)
    have "e \<noteq> ZeroDivisionError" by simp
    with raised(2) show ?thesis by simp
  next
    case (failed w1)
    with Cons.IH show ?thesis by simp
  next
    case (vanished w1)
    then show ?thesis by simp
  next
    case (zero w1 c)
    with assms show ?thesis by simp
  next
    case (accepted w1 c)
    then show ?thesis by simp
  next
    case (rejected w1 c)
    with Cons.IH show ?thesis by simp
  qed
qed

text \<open>
  C9: the reduction divides by the original size with no guard, on every successful
  driver invocation and before the sizes are compared. So the loop is free of
  \<^verbatim>\<open>ZeroDivisionError\<close> when the original size is not zero; when it is zero, the first
  attempt whose driver succeeds and whose output exists raises it; and the validator
  does not exclude that case: a file of zero bytes whose name ends in \<^verbatim>\<open>.pdf\<close> passes
  \<^const>\<open>check_pdf\<close> and has size 0.
\<close>

theorem reduction_needs_nonzero_size:
  "(orig \<noteq> 0 \<longrightarrow> fst (try_levels eng system inp out orig qs w) \<noteq> Inl ZeroDivisionError)
   \<and> (compress_pdf eng system inp out q (say (MsgTrying q) w) = (Inr True, w1)
        \<and> files w1 out = Some n \<longrightarrow>
      try_levels eng system inp out 0 (q # rest) w = (Inl ZeroDivisionError, w1))
   \<and> (fs p = Some 0 \<and> endswith (str_lower p) ''.pdf'' \<longrightarrow>
      check_pdf fs p \<and> get_file_size fs p = Inr 0)"
  by (simp add: try_levels_no_zero_division check_pdf_def get_file_size_def)

text \<open>
  C9 at the zero-byte file \<^verbatim>\<open>empty.pdf\<close>, which raises at the first preset, and at the
  100-byte file \<^verbatim>\<open>report.pdf\<close>, which does not.
\<close>

theorem reduction_needs_nonzero_size_witness:
  "files world_empty_pdf ''empty.pdf'' = Some 0
   \<and> endswith (str_lower ''empty.pdf'') ''.pdf''
   \<and> check_pdf (files world_empty_pdf) ''empty.pdf''
   \<and> get_file_size (files world_empty_pdf) ''empty.pdf'' = Inr 0
   \<and> fst (compress_pdf engine_example ''Linux'' ''empty.pdf'' ''empty_compressed.pdf'' ''printer''
            (say (MsgTrying ''printer'') world_empty_pdf)) = Inr True
   \<and> fst (try_levels engine_example ''Linux'' ''empty.pdf'' ''empty_compressed.pdf'' 0
            (''printer'' # [''ebook'', ''screen'']) world_empty_pdf) = Inl ZeroDivisionError
   \<and> fst (try_levels engine_example ''Linux'' ''report.pdf'' ''report_compressed.pdf'' (100 / 1048576)
            quality_levels world_report) \<noteq> Inl ZeroDivisionError"
proof -
  let ?c = "compress_pdf engine_example ''Linux'' ''empty.pdf'' ''empty_compressed.pdf'' ''printer''
              (say (MsgTrying ''printer'') world_empty_pdf)"
  have f: "fst ?c = Inr True" by code_simp
  then have c: "?c = (Inr True, snd ?c)" by (metis prod.collapse)
  have s: "files (snd ?c) ''empty_compressed.pdf'' = Some 105" by code_simp
  have z: "files world_empty_pdf ''empty.pdf'' = Some 0" by (simp add: world_empty_pdf_def)
  have e: "endswith (str_lower ''empty.pdf'') ''.pdf''" by code_simp
  have nz: "(100 / 1048576 :: rat) \<noteq> 0" by simp
  note r1 = reduction_needs_nonzero_size [of 0 engine_example "''Linux''" "''empty.pdf''" "''empty_compressed.pdf''" "[]"
      world_empty_pdf "''printer''" "snd ?c" 105 "[''ebook'', ''screen'']" "files world_empty_pdf" "''empty.pdf''"]
  note r2 = reduction_needs_nonzero_size [of "100 / 1048576" engine_example "''Linux''" "''report.pdf''" "''report_compressed.pdf''"
      quality_levels world_report]
  from r1 c s have t: "try_levels engine_example ''Linux'' ''empty.pdf'' ''empty_compressed.pdf'' 0
            (''printer'' # [''ebook'', ''screen'']) world_empty_pdf = (Inl ZeroDivisionError, snd ?c)"
    by blast
  from r1 z e have v: "check_pdf (files world_empty_pdf) ''empty.pdf''
      \<and> get_file_size (files world_empty_pdf) ''empty.pdf'' = Inr 0"
    by blast
  from r2 nz have n: "fst (try_levels engine_example ''Linux'' ''report.pdf'' ''report_compressed.pdf'' (100 / 1048576)
            quality_levels world_report) \<noteq> Inl ZeroDivisionError"
    by blast
  from t have "fst (try_levels engine_example ''Linux'' ''empty.pdf'' ''empty_compressed.pdf'' 0
            (''printer'' # [''ebook'', ''screen'']) world_empty_pdf) = Inl ZeroDivisionError"
    by simp
  with z e v f n show ?thesis by (intro conjI) simp_all
qed

subsection \<open>Claim C5: a driver failure and the run\<close>

text \<open>
  When the driver returns \<^verbatim>\<open>False\<close> (the engine could not be launched, or it exited with a
  non-zero code and its standard error decodes), the loop goes on with the next preset.
\<close>

lemma failed_attempt_advances:
  assumes "verdict_of out (eng (gs_command (get_gs_binary system (files w)) inp out q) (files w)) = Failed"
  shows "fst (compress_pdf eng system inp out q (say (MsgTrying q) w)) = Inr False
     \<and> try_levels eng system inp out orig (q # rest) w =
         try_levels eng system inp out orig rest
           (snd (compress_pdf eng system inp out q (say (MsgTrying q) w)))"
proof -
  have f: "fst (compress_pdf eng system inp out q (say (MsgTrying q) w)) = Inr False"
    using assms by (simp add: compress_pdf_verdict)
  then have "compress_pdf eng system inp out q (say (MsgTrying q) w) =
      (Inr False, snd (compress_pdf eng system inp out q (say (MsgTrying q) w)))"
    by (metis prod.collapse)
  from f try_levels_failed [OF this] show ?thesis by simp
qed

text \<open>
  C5: a driver failure at one preset never aborts the run. The code breaks this when the
  engine exits with a non-zero code and its standard error is not UTF-8: the handler of
  \<^verbatim>\<open>CalledProcessError\<close> calls \<^verbatim>\<open>e.stderr.decode()\<close>, which raises \<^verbatim>\<open>UnicodeDecodeError\<close> inside
  the handler, and the exception leaves \<^const>\<open>compress_pdf\<close> and \<^const>\<open>main\<close>. On the input
  below the run ends with that exception after the first preset: two subprocesses (the
  version query and one compression), and no second preset announced.
\<close>

theorem undecodable_stderr_aborts_run:
  "verdict_of ''report_compressed.pdf''
     (engine_garbled (gs_command ''gs'' ''report.pdf'' ''report_compressed.pdf'' ''printer'')
        (files world_report)) = Crashed
   \<and> fst (main engine_garbled ''Linux'' argv_report world_report) = Inl UnicodeDecodeError
   \<and> tried (trail (snd (main engine_garbled ''Linux'' argv_report world_report))) = [''printer'']
   \<and> length (runs (trail (snd (main engine_garbled ''Linux'' argv_report world_report)))) = 2"
  by code_simp

subsection \<open>Claim C3: a rejected output is removed\<close>

text \<open>
  C3: after a successful attempt whose output is not strictly smaller than the original,
  the output file is deleted before the next attempt. The code breaks this for an
  original of zero bytes: the reduction is computed before the comparison, the division
  raises, and \<^verbatim>\<open>os.remove\<close> is never reached. On the input below the validator accepts
  \<^verbatim>\<open>empty.pdf\<close>, the first preset yields 105 bytes (not smaller than 0), the run ends with
  \<^verbatim>\<open>ZeroDivisionError\<close>, nothing has been removed and the 105 bytes stay at the output path.
\<close>

theorem zero_size_output_not_removed:
  "check_pdf (files world_empty_pdf) ''empty.pdf''
   \<and> fst (main engine_example ''Linux'' argv_empty_pdf world_empty_pdf) = Inl ZeroDivisionError
   \<and> files (snd (main engine_example ''Linux'' argv_empty_pdf world_empty_pdf))
        ''empty_compressed.pdf'' = Some 105
   \<and> removals (trail (snd (main engine_example ''Linux'' argv_empty_pdf world_empty_pdf))) = []
   \<and> tried (trail (snd (main engine_example ''Linux'' argv_empty_pdf world_empty_pdf))) = [''printer'']"
  by code_simp

text \<open>
  For an original of non-zero size the loop does what C3 says: the rejected output is
  removed, nothing else is touched, and the next attempt starts from there.
\<close>

lemma rejected_output_removed:
  assumes "compress_pdf eng system inp out q (say (MsgTrying q) w) = (Inr True, w1)"
    and "get_file_size (files w1) out = Inr c" and "orig \<noteq> 0" and "\<not> c < orig"
  shows "\<exists>w2. try_levels eng system inp out orig (q # rest) w =
                try_levels eng system inp out orig rest w2
            \<and> files w2 out = None
            \<and> trail w2 = trail w1 @ [Print MsgNextLevel, Remove out]
            \<and> (\<forall>p. p \<noteq> out \<longrightarrow> files w2 p = files w1 p)"
  using try_levels_rejected [OF assms, of rest]
  by (intro exI [of _ "w1\<lparr>files := (files w1)(out := None),
        trail := trail w1 @ [Print MsgNextLevel, Remove out]\<rparr>"]) simp

subsection \<open>Claim C2: the accepted preset is the first that shrinks the file\<close>

lemma tried_Trying [simp]: "tried [Print (MsgTrying q)] = [q]"
  by (simp add: tried_def)

lemma compress_pdf_after_trying:
  assumes "compress_pdf eng system inp out q (say (MsgTrying q) w) = (r, w1)"
  shows "tried (trail w1) = tried (trail w) @ [q]"
    and "length (runs (trail w1)) = Suc (length (runs (trail w)))"
    and "removals (trail w1) = removals (trail w)"
proof -
  have "w1 = snd (compress_pdf eng system inp out q (say (MsgTrying q) w))"
    using assms by simp
  then show "tried (trail w1) = tried (trail w) @ [q]"
    and "length (runs (trail w1)) = Suc (length (runs (trail w)))"
    and "removals (trail w1) = removals (trail w)"
    by (simp_all add: compress_pdf_tried compress_pdf_runs compress_pdf_removals)
qed

lemma accepted_split:
  assumes "try_levels eng system inp out orig qs w = (Inr True, w')"
  shows "\<exists>pre q post w1 w2 c.
           qs = pre @ q # post
         \<and> try_levels eng system inp out orig pre w = (Inr False, w1)
         \<and> compress_pdf eng system inp out q (say (MsgTrying q) w1) = (Inr True, w2)
         \<and> get_file_size (files w2) out = Inr c \<and> c < orig
         \<and> w' = says [MsgSuccess q, MsgOriginalSize orig, MsgCompressedSize c,
                       MsgReduction ((orig - c) / orig * 100), MsgSavedAs out] w2"
  using assms
proof (induction qs arbitrary: w)
  case Nil
  then show ?case by simp
next
  case (Cons q rest)
  show ?case
  proof (cases rule: try_levels_step [of eng system inp out q w orig rest])
    case (raised e w1)
    with Cons.prems show ?thesis by simp
  next
    case (vanished w1)
    with Cons.prems show ?thesis by simp
  next
    case (zero w1 c)
    with Cons.prems show ?thesis by simp
  next
    case (accepted w1 c)
    with Cons.prems
    have "w' = says [MsgSuccess q, MsgOriginalSize orig, MsgCompressedSize c,
                     MsgReduction ((orig - c) / orig * 100), MsgSavedAs out] w1"
      by simp
    with accepted(1-3) have
      "q # rest = [] @ q # rest
       \<and> try_levels eng system inp out orig [] w = (Inr False, w)
       \<and> compress_pdf eng system inp out q (say (MsgTrying q) w) = (Inr True, w1)
       \<and> get_file_size (files w1) out = Inr c \<and> c < orig
       \<and> w' = says [MsgSuccess q, MsgOriginalSize orig, MsgCompressedSize c,
                     MsgReduction ((orig - c) / orig * 100), MsgSavedAs out] w1"
      by simp
    then show ?thesis by blast
  next
    case (failed w1)
    with Cons.prems have "try_levels eng system inp out orig rest w1 = (Inr True, w')"
      by simp
    from Cons.IH [OF this] obtain pre q' post v1 v2 c where
      d: "rest = pre @ q' # post"
      and e: "try_levels eng system inp out orig pre w1 = (Inr False, v1)"
      and r: "compress_pdf eng system inp out q' (say (MsgTrying q') v1) = (Inr True, v2)"
         "get_file_size (files v2) out = Inr c" "c < orig"
         "w' = says [MsgSuccess q', MsgOriginalSize orig, MsgCompressedSize c,
                     MsgReduction ((orig - c) / orig * 100), MsgSavedAs out] v2"
      by blast
    from e try_levels_failed [OF failed(1), of orig pre]
    have "try_levels eng system inp out orig (q # pre) w = (Inr False, v1)" by simp
    moreover from d have "q # rest = (q # pre) @ q' # post" by simp
    ultimately show ?thesis using r by blast
  next
    case (rejected w1 c0)
    let ?w2 = "w1\<lparr>files := (files w1)(out := None),
                   trail := trail w1 @ [Print MsgNextLevel, Remove out]\<rparr>"
    from rejected Cons.prems have "try_levels eng system inp out orig rest ?w2 = (Inr True, w')"
      by simp
    from Cons.IH [OF this] obtain pre q' post v1 v2 c where
      d: "rest = pre @ q' # post"
      and e: "try_levels eng system inp out orig pre ?w2 = (Inr False, v1)"
      and r: "compress_pdf eng system inp out q' (say (MsgTrying q') v1) = (Inr True, v2)"
         "get_file_size (files v2) out = Inr c" "c < orig"
         "w' = says [MsgSuccess q', MsgOriginalSize orig, MsgCompressedSize c,
                     MsgReduction ((orig - c) / orig * 100), MsgSavedAs out] v2"
      by blast
    from e try_levels_rejected [OF rejected(1-4), of pre]
    have "try_levels eng system inp out orig (q # pre) w = (Inr False, v1)" by simp
    moreover from d have "q # rest = (q # pre) @ q' # post" by simp
    ultimately show ?thesis using r by blast
  qed
qed

lemma exhausted_trail:
  assumes "try_levels eng system inp out orig qs w = (Inr False, w')"
  shows "tried (trail w') = tried (trail w) @ qs
       \<and> length (runs (trail w')) = length (runs (trail w)) + length qs"
  using assms
proof (induction qs arbitrary: w)
  case Nil
  then show ?case by simp
next
  case (Cons q rest)
  show ?case
  proof (cases rule: try_levels_step [of eng system inp out q w orig rest])
    case (raised e w1)
    with Cons.prems show ?thesis by simp
  next
    case (vanished w1)
    with Cons.prems show ?thesis by simp
  next
    case (zero w1 c)
    with Cons.prems show ?thesis by simp
  next
    case (accepted w1 c)
    with Cons.prems show ?thesis by simp
  next
    case (failed w1)
    with Cons.prems have "try_levels eng system inp out orig rest w1 = (Inr False, w')"
      by simp
    from Cons.IH [OF this] compress_pdf_after_trying [OF failed(1)]
    show ?thesis by simp
  next
    case (rejected w1 c0)
    let ?w2 = "w1\<lparr>files := (files w1)(out := None),
                   trail := trail w1 @ [Print MsgNextLevel, Remove out]\<rparr>"
    from rejected Cons.prems have "try_levels eng system inp out orig rest ?w2 = (Inr False, w')"
      by simp
    from Cons.IH [OF this] compress_pdf_after_trying [OF rejected(1)]
    show ?thesis by (simp add: tried_def)
  qed
qed

lemma exhausted_each:
  assumes "try_levels eng system inp out orig qs w = (Inr False, w')" and "i < length qs"
  shows "\<exists>wi wi'. try_levels eng system inp out orig (take i qs) w = (Inr False, wi)
          \<and> (compress_pdf eng system inp out (qs ! i) (say (MsgTrying (qs ! i)) wi) = (Inr False, wi')
             \<or> compress_pdf eng system inp out (qs ! i) (say (MsgTrying (qs ! i)) wi) = (Inr True, wi')
               \<and> (\<exists>c. get_file_size (files wi') out = Inr c \<and> \<not> c < orig))"
  using assms
proof (induction qs arbitrary: w i)
  case Nil
  then show ?case by simp
next
  case (Cons q rest)
  show ?case
  proof (cases rule: try_levels_step [of eng system inp out q w orig rest])
    case (raised e w1)
    with Cons.prems show ?thesis by simp
  next
    case (vanished w1)
    with Cons.prems show ?thesis by simp
  next
    case (zero w1 c)
    with Cons.prems show ?thesis by simp
  next
    case (accepted w1 c)
    with Cons.prems show ?thesis by simp
  next
    case (failed w1)
    show ?thesis
    proof (cases i)
      case 0
      with failed(1) show ?thesis by auto
    next
      case (Suc j)
      from failed Cons.prems have "try_levels eng system inp out orig rest w1 = (Inr False, w')"
        by simp
      moreover from Suc Cons.prems have "j < length rest" by simp
      ultimately obtain wi wi' where
        "try_levels eng system inp out orig (take j rest) w1 = (Inr False, wi)"
        "compress_pdf eng system inp out (rest ! j) (say (MsgTrying (rest ! j)) wi) = (Inr False, wi')
         \<or> compress_pdf eng system inp out (rest ! j) (say (MsgTrying (rest ! j)) wi) = (Inr True, wi')
           \<and> (\<exists>c. get_file_size (files wi') out = Inr c \<and> \<not> c < orig)"
        using Cons.IH by blast
      with try_levels_failed [OF failed(1), of orig "take j rest"] Suc
      show ?thesis by auto
    qed
  next
    case (rejected w1 c0)
    let ?w2 = "w1\<lparr>files := (files w1)(out := None),
                   trail := trail w1 @ [Print MsgNextLevel, Remove out]\<rparr>"
    show ?thesis
    proof (cases i)
      case 0
      with rejected(1,2,4) show ?thesis by auto
    next
      case (Suc j)
      from rejected Cons.prems have "try_levels eng system inp out orig rest ?w2 = (Inr False, w')"
        by simp
      moreover from Suc Cons.prems have "j < length rest" by simp
      ultimately obtain wi wi' where
        "try_levels eng system inp out orig (take j rest) ?w2 = (Inr False, wi)"
        "compress_pdf eng system inp out (rest ! j) (say (MsgTrying (rest ! j)) wi) = (Inr False, wi')
         \<or> compress_pdf eng system inp out (rest ! j) (say (MsgTrying (rest ! j)) wi) = (Inr True, wi')
           \<and> (\<exists>c. get_file_size (files wi') out = Inr c \<and> \<not> c < orig)"
        using Cons.IH by blast
      with try_levels_rejected [OF rejected(1-4), of "take j rest"] Suc
      show ?thesis by auto
    qed
  qed
qed


text \<open>
  C2: when the loop over an ordered preset list accepts a result, the accepted preset
  \<open>q\<close> is the first one whose driver invocation succeeds with an output strictly smaller
  than the original: the list splits as \<open>pre @ q # post\<close>; every preset of \<open>pre\<close> was
  attempted, in order, and either its driver returned \<^verbatim>\<open>False\<close> or its output was not
  strictly smaller; the driver succeeded on \<open>q\<close> with a strictly smaller output, which
  is the result reported; and the loop stopped there: the presets announced are \<open>pre\<close>
  and \<open>q\<close>, with one engine invocation each, and none of \<open>post\<close>.
\<close>

theorem accepted_is_first_success:
  assumes "try_levels eng system inp out orig qs w = (Inr True, w')"
  shows "\<exists>pre q post w1 w2 c.
           qs = pre @ q # post
         \<and> try_levels eng system inp out orig pre w = (Inr False, w1)
         \<and> (\<forall>i<length pre. \<exists>wi wi'.
                try_levels eng system inp out orig (take i pre) w = (Inr False, wi)
              \<and> (compress_pdf eng system inp out (pre ! i) (say (MsgTrying (pre ! i)) wi) = (Inr False, wi')
                 \<or> compress_pdf eng system inp out (pre ! i) (say (MsgTrying (pre ! i)) wi) = (Inr True, wi')
                   \<and> (\<exists>c'. get_file_size (files wi') out = Inr c' \<and> \<not> c' < orig)))
         \<and> compress_pdf eng system inp out q (say (MsgTrying q) w1) = (Inr True, w2)
         \<and> get_file_size (files w2) out = Inr c \<and> c < orig
         \<and> w' = says [MsgSuccess q, MsgOriginalSize orig, MsgCompressedSize c,
                       MsgReduction ((orig - c) / orig * 100), MsgSavedAs out] w2
         \<and> tried (trail w') = tried (trail w) @ pre @ [q]
         \<and> length (runs (trail w')) = length (runs (trail w)) + length pre + 1"
proof -
  from accepted_split [OF assms] obtain pre q post w1 w2 c where
    d: "qs = pre @ q # post"
    and e: "try_levels eng system inp out orig pre w = (Inr False, w1)"
    and a: "compress_pdf eng system inp out q (say (MsgTrying q) w1) = (Inr True, w2)"
    and s: "get_file_size (files w2) out = Inr c" "c < orig"
    and w': "w' = says [MsgSuccess q, MsgOriginalSize orig, MsgCompressedSize c,
                       MsgReduction ((orig - c) / orig * 100), MsgSavedAs out] w2"
    by blast
  have each: "\<forall>i<length pre. \<exists>wi wi'.
                try_levels eng system inp out orig (take i pre) w = (Inr False, wi)
              \<and> (compress_pdf eng system inp out (pre ! i) (say (MsgTrying (pre ! i)) wi) = (Inr False, wi')
                 \<or> compress_pdf eng system inp out (pre ! i) (say (MsgTrying (pre ! i)) wi) = (Inr True, wi')
                   \<and> (\<exists>c'. get_file_size (files wi') out = Inr c' \<and> \<not> c' < orig))"
    using exhausted_each [OF e] by blast
  have t: "tried (trail w') = tried (trail w) @ pre @ [q]"
    using exhausted_trail [OF e] compress_pdf_after_trying(1) [OF a]
    by (simp add: w' tried_def)
  have r: "length (runs (trail w')) = length (runs (trail w)) + length pre + 1"
    using exhausted_trail [OF e] compress_pdf_after_trying(2) [OF a]
    by (simp add: w')
  from d e each a s w' t r show ?thesis by blast
qed

text \<open>
  C2 at the example of the specification: \<^verbatim>\<open>printer\<close> grows the file, \<^verbatim>\<open>ebook\<close> is accepted,
  \<^verbatim>\<open>screen\<close> is not tried.
\<close>

theorem accepted_is_first_success_witness:
  "fst (try_levels engine_example ''Linux'' ''report.pdf'' ''report_compressed.pdf'' (100 / 1048576)
      quality_levels world_report) = Inr True
   \<and> (\<exists>pre q post. quality_levels = pre @ q # post
        \<and> tried (trail (snd (try_levels engine_example ''Linux'' ''report.pdf''
             ''report_compressed.pdf'' (100 / 1048576) quality_levels world_report))) =
            tried (trail world_report) @ pre @ [q])
   \<and> tried (trail (snd (try_levels engine_example ''Linux'' ''report.pdf''
             ''report_compressed.pdf'' (100 / 1048576) quality_levels world_report))) =
        [''printer'', ''ebook'']"
proof -
  let ?t = "try_levels engine_example ''Linux'' ''report.pdf'' ''report_compressed.pdf''
      (100 / 1048576) quality_levels world_report"
  have f: "fst ?t = Inr True" by code_simp
  then have h: "?t = (Inr True, snd ?t)" by (metis prod.collapse)
  have v: "tried (trail (snd ?t)) = [''printer'', ''ebook'']" by code_simp
  from accepted_is_first_success [OF h] have "\<exists>pre q post. quality_levels = pre @ q # post
        \<and> tried (trail (snd ?t)) = tried (trail world_report) @ pre @ [q]"
    by blast
  with f v show ?thesis by (intro conjI)
qed

subsection \<open>Claim C4: every preset exhausted\<close>

lemma exhausted_output_absent:
  assumes "try_levels eng system inp out orig qs w = (Inr False, w')"
    and "files w out = None"
    and clean: "\<forall>cmd fs rc so se fs'.
        eng cmd fs = Completed rc so se fs' \<and> rc \<noteq> 0 \<and> fs out = None \<longrightarrow> fs' out = None"
  shows "files w' out = None"
  using assms(1,2)
proof (induction qs arbitrary: w)
  case Nil
  then show ?case by simp
next
  case (Cons q rest)
  show ?case
  proof (cases rule: try_levels_step [of eng system inp out q w orig rest])
    case (raised e w1)
    with Cons.prems show ?thesis by simp
  next
    case (vanished w1)
    with Cons.prems show ?thesis by simp
  next
    case (zero w1 c)
    with Cons.prems show ?thesis by simp
  next
    case (accepted w1 c)
    with Cons.prems show ?thesis by simp
  next
    case (failed w1)
    let ?r = "eng (gs_command (get_gs_binary system (files w)) inp out q) (files w)"
    from failed(1) have w1: "files w1 = left_by ?r (files w)"
      using compress_pdf_files [of eng system inp out q "say (MsgTrying q) w"] by simp
    from failed(1) have "verdict_of out ?r = Failed"
      using compress_pdf_verdict [of eng system inp out q "say (MsgTrying q) w"]
      by (simp split: verdict.splits)
    then have "left_by ?r (files w) out = None"
      using Cons.prems(2) clean
      by (cases ?r) (auto simp: left_by_def verdict_of_def split: if_splits)
    with w1 have "files w1 out = None" by simp
    moreover from failed Cons.prems
    have "try_levels eng system inp out orig rest w1 = (Inr False, w')" by simp
    ultimately show ?thesis by (rule Cons.IH [rotated])
  next
    case (rejected w1 c0)
    let ?w2 = "w1\<lparr>files := (files w1)(out := None),
                   trail := trail w1 @ [Print MsgNextLevel, Remove out]\<rparr>"
    from rejected Cons.prems have "try_levels eng system inp out orig rest ?w2 = (Inr False, w')"
      by simp
    moreover have "files ?w2 out = None" by simp
    ultimately show ?thesis by (rule Cons.IH)
  qed
qed

lemma main_reaches_loop:
  assumes "check_ghostscript eng system w = (True, w1)"
    and "check_pdf (files w1) inp"
    and "get_file_size (files w1) inp = Inr orig"
  shows "main eng system [prog, inp] w =
     (case try_levels eng system inp
             (fst (splitext (path_seps system) inp) @ ''_compressed.pdf'') orig quality_levels
             (says [MsgOriginalSize orig, MsgCompressing] w1) of
        (Inl e, w2) \<Rightarrow> (Inl e, w2)
      | (Inr True, w2) \<Rightarrow> (Inr (), w2)
      | (Inr False, w2) \<Rightarrow>
          (Inr (), says [MsgNoReduction, MsgPossibleCauses, MsgHint 1, MsgHint 2, MsgHint 3] w2))"
  using assms by (simp add: main_def Let_def)

text \<open>
  C4, as stated: when every preset is exhausted without a file strictly smaller than the
  original, no output file remains on disk and the run reports exhaustion.
  The first half fails: the loop removes the output only after a successful attempt
  that it rejects, and nothing after a failed one. With an engine that exits with code 1
  at every preset after it has written 150 bytes (the original has 100), all three
  presets are tried, none is accepted, the run returns normally, and the 150 bytes are
  still at the output path.
\<close>

theorem failed_attempts_leave_output:
  "fst (main engine_partial ''Linux'' argv_report world_report) = Inr ()
   \<and> tried (trail (snd (main engine_partial ''Linux'' argv_report world_report))) =
       [''printer'', ''ebook'', ''screen'']
   \<and> MsgNoReduction \<in> set (printed (trail (snd (main engine_partial ''Linux'' argv_report world_report))))
   \<and> removals (trail (snd (main engine_partial ''Linux'' argv_report world_report))) = []
   \<and> files (snd (main engine_partial ''Linux'' argv_report world_report)) ''report_compressed.pdf'' = Some 150"
  by code_simp

text \<open>
  C4, amended: when the loop has gone through every preset without accepting one, the
  run returns without raising and reports exhaustion with the advisory hints, all
  presets having been tried in order. No file remains at the output path provided that
  none was there when the loop started and that an engine invocation that exits with a
  non-zero code leaves none there; the program itself removes only the outputs of
  successful attempts that it rejects.
\<close>

theorem exhaustion_reported:
  assumes "check_ghostscript eng system w = (True, w1)"
    and "check_pdf (files w1) inp"
    and "get_file_size (files w1) inp = Inr orig"
    and "out = fst (splitext (path_seps system) inp) @ ''_compressed.pdf''"
    and "try_levels eng system inp out orig quality_levels
           (says [MsgOriginalSize orig, MsgCompressing] w1) = (Inr False, w2)"
  shows "main eng system [prog, inp] w =
           (Inr (), says [MsgNoReduction, MsgPossibleCauses, MsgHint 1, MsgHint 2, MsgHint 3] w2)
       \<and> tried (trail w2) = tried (trail w1) @ quality_levels
       \<and> (files w1 out = None
           \<and> (\<forall>cmd fs rc so se fs'.
                 eng cmd fs = Completed rc so se fs' \<and> rc \<noteq> 0 \<and> fs out = None \<longrightarrow> fs' out = None)
          \<longrightarrow> files (snd (main eng system [prog, inp] w)) out = None)"
proof -
  have m: "main eng system [prog, inp] w =
           (Inr (), says [MsgNoReduction, MsgPossibleCauses, MsgHint 1, MsgHint 2, MsgHint 3] w2)"
    using main_reaches_loop [OF assms(1-3), of prog] assms(4,5) by simp
  have t: "tried (trail w2) = tried (trail w1) @ quality_levels"
    using exhausted_trail [OF assms(5)] by (simp add: tried_def)
  have "files w2 out = None"
    if "files w1 out = None"
      and "\<forall>cmd fs rc so se fs'.
             eng cmd fs = Completed rc so se fs' \<and> rc \<noteq> 0 \<and> fs out = None \<longrightarrow> fs' out = None"
    using exhausted_output_absent [OF assms(5) _ that(2)] that(1) by simp
  with m t show ?thesis by simp
qed


text \<open>The amended C4 at an engine whose every preset yields 120 bytes for an original of 100.\<close>

theorem exhaustion_reported_witness:
  "check_ghostscript engine_growing ''Linux'' world_report =
     (True, snd (check_ghostscript engine_growing ''Linux'' world_report))
   \<and> check_pdf (files (snd (check_ghostscript engine_growing ''Linux'' world_report))) ''report.pdf''
   \<and> fst (try_levels engine_growing ''Linux'' ''report.pdf'' ''report_compressed.pdf'' (100 / 1048576)
        quality_levels
        (says [MsgOriginalSize (100 / 1048576), MsgCompressing]
           (snd (check_ghostscript engine_growing ''Linux'' world_report)))) = Inr False
   \<and> fst (main engine_growing ''Linux'' argv_report world_report) = Inr ()
   \<and> files (snd (main engine_growing ''Linux'' argv_report world_report)) ''report_compressed.pdf'' = None"
proof -
  let ?g = "check_ghostscript engine_growing ''Linux'' world_report"
  let ?o = "100 / 1048576 :: rat"
  let ?t = "try_levels engine_growing ''Linux'' ''report.pdf'' ''report_compressed.pdf'' ?o
      quality_levels (says [MsgOriginalSize ?o, MsgCompressing] (snd ?g))"
  have "fst ?g = True" by code_simp
  then have g: "?g = (True, snd ?g)" by (metis prod.collapse)
  have p: "check_pdf (files (snd ?g)) ''report.pdf''" by code_simp
  have s: "get_file_size (files (snd ?g)) ''report.pdf'' = Inr ?o" by code_simp
  have o: "''report_compressed.pdf'' =
      fst (splitext (path_seps ''Linux'') ''report.pdf'') @ ''_compressed.pdf''" by code_simp
  have f: "fst ?t = Inr False" by code_simp
  then have t: "?t = (Inr False, snd ?t)" by (metis prod.collapse)
  have a: "files (snd ?g) ''report_compressed.pdf'' = None" by code_simp
  have c: "\<forall>cmd fs rc so se fs'.
      engine_growing cmd fs = Completed rc so se fs' \<and> rc \<noteq> 0 \<and> fs ''report_compressed.pdf'' = None
      \<longrightarrow> fs' ''report_compressed.pdf'' = None"
    by (simp add: engine_growing_def version_reply_def writes_def)
  note r = exhaustion_reported [OF g p s o t, of "''pdf_compressor.py''"]
  from r have "fst (main engine_growing ''Linux'' [''pdf_compressor.py'', ''report.pdf''] world_report) = Inr ()"
    by simp
  moreover from r a c
  have "files (snd (main engine_growing ''Linux'' [''pdf_compressor.py'', ''report.pdf''] world_report))
      ''report_compressed.pdf'' = None"
    by blast
  ultimately show ?thesis using g p f unfolding argv_report_def by (intro conjI)
qed

subsection \<open>Claim C7: the input validator\<close>

lemma of_char_lower_char:
  "(of_char (lower_char x) :: nat) =
     (let n = of_char x
      in if (65 \<le> n \<and> n \<le> 90) \<or> (192 \<le> n \<and> n \<le> 222 \<and> n \<noteq> 215) then n + 32 else n)"
  by (auto simp: lower_char_def Let_def)

lemma char_eq_by_code: "(x = c) = ((of_char x :: nat) = of_char c)"
  by (simp only: of_char_eq_iff)

lemma lower_char_dot: "(lower_char x = CHR ''.'') = (x = CHR ''.'')"
proof -
  have "(lower_char x = CHR ''.'') = ((of_char (lower_char x) :: nat) = 46)"
    by (simp add: char_eq_by_code [of "lower_char x"] del: of_char_eq_iff)
  also have "\<dots> = ((of_char x :: nat) = 46)"
    by (auto simp: of_char_lower_char Let_def)
  also have "\<dots> = (x = CHR ''.'')"
    by (simp add: char_eq_by_code [of x] del: of_char_eq_iff)
  finally show ?thesis .
qed

lemma lower_char_p: "(lower_char x = CHR ''p'') = (x = CHR ''p'' \<or> x = CHR ''P'')"
proof -
  have "(lower_char x = CHR ''p'') = ((of_char (lower_char x) :: nat) = 112)"
    by (simp add: char_eq_by_code [of "lower_char x"] del: of_char_eq_iff)
  also have "\<dots> = ((of_char x :: nat) = 112 \<or> (of_char x :: nat) = 80)"
    by (auto simp: of_char_lower_char Let_def)
  also have "\<dots> = (x = CHR ''p'' \<or> x = CHR ''P'')"
    by (simp add: char_eq_by_code [of x] del: of_char_eq_iff)
  finally show ?thesis .
qed

lemma lower_char_d: "(lower_char x = CHR ''d'') = (x = CHR ''d'' \<or> x = CHR ''D'')"
proof -
  have "(lower_char x = CHR ''d'') = ((of_char (lower_char x) :: nat) = 100)"
    by (simp add: char_eq_by_code [of "lower_char x"] del: of_char_eq_iff)
  also have "\<dots> = ((of_char x :: nat) = 100 \<or> (of_char x :: nat) = 68)"
    by (auto simp: of_char_lower_char Let_def)
  also have "\<dots> = (x = CHR ''d'' \<or> x = CHR ''D'')"
    by (simp add: char_eq_by_code [of x] del: of_char_eq_iff)
  finally show ?thesis .
qed

lemma lower_char_f: "(lower_char x = CHR ''f'') = (x = CHR ''f'' \<or> x = CHR ''F'')"
proof -
  have "(lower_char x = CHR ''f'') = ((of_char (lower_char x) :: nat) = 102)"
    by (simp add: char_eq_by_code [of "lower_char x"] del: of_char_eq_iff)
  also have "\<dots> = ((of_char x :: nat) = 102 \<or> (of_char x :: nat) = 70)"
    by (auto simp: of_char_lower_char Let_def)
  also have "\<dots> = (x = CHR ''f'' \<or> x = CHR ''F'')"
    by (simp add: char_eq_by_code [of x] del: of_char_eq_iff)
  finally show ?thesis .
qed

lemma endswith_suffix: "endswith s p = suffix p s"
  by (simp add: endswith_def suffix_to_prefix)

lemma map_eq_append4:
  "(\<exists>ys. map f p = ys @ [a, b, c, d]) =
     (\<exists>stem x1 x2 x3 x4. p = stem @ [x1, x2, x3, x4]
        \<and> f x1 = a \<and> f x2 = b \<and> f x3 = c \<and> f x4 = d)"
proof
  assume "\<exists>ys. map f p = ys @ [a, b, c, d]"
  then obtain ys where "map f p = ys @ [a, b, c, d]" ..
  then obtain us vs where "p = us @ vs" "map f vs = [a, b, c, d]"
    by (auto simp: map_eq_append_conv)
  moreover from this(2) obtain x1 x2 x3 x4 where
    "vs = [x1, x2, x3, x4]" "f x1 = a" "f x2 = b" "f x3 = c" "f x4 = d"
    by (auto simp: map_eq_Cons_conv)
  ultimately show "\<exists>stem x1 x2 x3 x4. p = stem @ [x1, x2, x3, x4]
        \<and> f x1 = a \<and> f x2 = b \<and> f x3 = c \<and> f x4 = d"
    by blast
next
  assume "\<exists>stem x1 x2 x3 x4. p = stem @ [x1, x2, x3, x4]
        \<and> f x1 = a \<and> f x2 = b \<and> f x3 = c \<and> f x4 = d"
  then obtain stem x1 x2 x3 x4 where "p = stem @ [x1, x2, x3, x4]"
    "f x1 = a" "f x2 = b" "f x3 = c" "f x4 = d"
    by blast
  then have "map f p = map f stem @ [a, b, c, d]" by simp
  then show "\<exists>ys. map f p = ys @ [a, b, c, d]" ..
qed

lemma pdf_suffix_iff:
  "suffix ''.pdf'' (str_lower p) =
     (\<exists>stem a b c. p = stem @ [CHR ''.'', a, b, c]
        \<and> a \<in> {CHR ''p'', CHR ''P''} \<and> b \<in> {CHR ''d'', CHR ''D''} \<and> c \<in> {CHR ''f'', CHR ''F''})"
proof -
  have "suffix ''.pdf'' (str_lower p) = (\<exists>ys. map lower_char p = ys @ ''.pdf'')"
    by (simp add: suffix_def str_lower_def)
  also have "\<dots> = (\<exists>stem x1 x2 x3 x4. p = stem @ [x1, x2, x3, x4]
        \<and> lower_char x1 = CHR ''.'' \<and> lower_char x2 = CHR ''p''
        \<and> lower_char x3 = CHR ''d'' \<and> lower_char x4 = CHR ''f'')"
    by (simp only: map_eq_append4)
  also have "\<dots> = (\<exists>stem a b c. p = stem @ [CHR ''.'', a, b, c]
        \<and> a \<in> {CHR ''p'', CHR ''P''} \<and> b \<in> {CHR ''d'', CHR ''D''} \<and> c \<in> {CHR ''f'', CHR ''F''})"
    by (simp only: lower_char_dot lower_char_p lower_char_d lower_char_f) blast
  finally show ?thesis .
qed


text \<open>
  C7, as stated: the validator accepts a path if and only if the path exists and its
  lowercased form ends with \<^verbatim>\<open>.pdf\<close>; otherwise the run aborts with an InvalidInput message.
  The second half fails when the engine check fails first: \<^const>\<open>main\<close> returns before it
  looks at the path, and the messages are those of the engine check. For the missing
  file \<^verbatim>\<open>ghost.pdf\<close> and no engine installed, no InvalidInput message is printed.
\<close>

theorem invalid_input_after_engine_failure:
  "\<not> check_pdf (files world_report) ''ghost.pdf''
   \<and> fst (main engine_missing ''Linux'' argv_ghost world_report) = Inr ()
   \<and> printed (trail (snd (main engine_missing ''Linux'' argv_ghost world_report))) =
       [MsgGsNotFound, MsgPleaseInstall]"
  by code_simp

text \<open>
  C7, amended: the validator accepts a path if and only if the path exists and its
  lowercased form ends with \<^verbatim>\<open>.pdf\<close>, that is, the path ends with a dot followed by
  \<^verbatim>\<open>p\<close>, \<^verbatim>\<open>d\<close>, \<^verbatim>\<open>f\<close> in either case; nothing else of the file is looked at. Otherwise, when
  the engine version check has passed, the run aborts with the InvalidInput message.
\<close>

theorem validator_accepts_iff:
  "check_pdf fs p = (fs p \<noteq> None \<and> suffix ''.pdf'' (str_lower p))
   \<and> suffix ''.pdf'' (str_lower p) =
       (\<exists>stem a b c. p = stem @ [CHR ''.'', a, b, c]
          \<and> a \<in> {CHR ''p'', CHR ''P''} \<and> b \<in> {CHR ''d'', CHR ''D''} \<and> c \<in> {CHR ''f'', CHR ''F''})
   \<and> (check_ghostscript eng system w = (True, w1) \<and> \<not> check_pdf (files w1) p \<longrightarrow>
        main eng system [prog, p] w = (Inr (), say MsgInvalidInput w1))"
proof -
  have "check_pdf fs p = (fs p \<noteq> None \<and> suffix ''.pdf'' (str_lower p))"
    by (simp add: check_pdf_def endswith_suffix)
  moreover have "main eng system [prog, p] w = (Inr (), say MsgInvalidInput w1)"
    if "check_ghostscript eng system w = (True, w1)" and "\<not> check_pdf (files w1) p"
    using that by (simp add: main_def)
  ultimately show ?thesis using pdf_suffix_iff [of p] by blast
qed

text \<open>The amended C7 at the paths \<^verbatim>\<open>Report.PDF\<close>, accepted, and \<^verbatim>\<open>ghost.pdf\<close>, missing.\<close>

theorem validator_accepts_iff_witness:
  "check_pdf [''Report.PDF'' \<mapsto> 7] ''Report.PDF''
   \<and> fst (check_ghostscript engine_example ''Linux'' world_report) = True
   \<and> \<not> check_pdf (files (snd (check_ghostscript engine_example ''Linux'' world_report))) ''ghost.pdf''
   \<and> main engine_example ''Linux'' argv_ghost world_report =
       (Inr (), say MsgInvalidInput (snd (check_ghostscript engine_example ''Linux'' world_report)))"
proof -
  let ?g = "check_ghostscript engine_example ''Linux'' world_report"
  have e: "\<exists>stem a b c. ''Report.PDF'' = stem @ [CHR ''.'', a, b, c]
      \<and> a \<in> {CHR ''p'', CHR ''P''} \<and> b \<in> {CHR ''d'', CHR ''D''} \<and> c \<in> {CHR ''f'', CHR ''F''}"
    by (rule exI [of _ "''Report''"], rule exI [of _ "CHR ''P''"],
        rule exI [of _ "CHR ''D''"], rule exI [of _ "CHR ''F''"]) simp
  have x: "[''Report.PDF'' \<mapsto> (7::nat)] ''Report.PDF'' \<noteq> None" by simp
  from validator_accepts_iff [of "[''Report.PDF'' \<mapsto> 7]" "''Report.PDF''"] e x
  have a: "check_pdf [''Report.PDF'' \<mapsto> 7] ''Report.PDF''" by blast
  have f: "fst ?g = True" by code_simp
  then have g: "?g = (True, snd ?g)" by (metis prod.collapse)
  have n: "\<not> check_pdf (files (snd ?g)) ''ghost.pdf''" by code_simp
  from validator_accepts_iff [of _ "''ghost.pdf''" engine_example "''Linux''" world_report "snd ?g" "''pdf_compressor.py''"] g n
  have "main engine_example ''Linux'' [''pdf_compressor.py'', ''ghost.pdf''] world_report =
       (Inr (), say MsgInvalidInput (snd ?g))"
    by blast
  with a f n show ?thesis unfolding argv_ghost_def by (intro conjI)
qed

subsection \<open>Claim C8: the loop is determined by what the engine does\<close>





lemma progress_Nil [simp]: "progress [] = []"
  by (simp add: progress_def)

lemma progress_Print [simp]: "progress (map Print ms) = filter (\<lambda>m. \<not> is_diagnostic m) ms"
  by (simp add: progress_def)

lemma progress_single [simp]:
  "progress [Print m] = (if is_diagnostic m then [] else [m])"
  by (simp add: progress_def)

lemma progress_Remove [simp]: "progress [Remove p] = []"
  by (simp add: progress_def)

lemma progress_Cons_Print [simp]:
  "progress (Print m # es) = (if is_diagnostic m then progress es else m # progress es)"
  by (simp add: progress_def)




end
